theory Spec2Isabelle
  imports Complex_Main
begin

section \<open>Data model\<close>

text \<open>
  The two player symbols, the strings \<open>'X'\<close> and \<open>'O'\<close> of the source. A board cell
  holds \<open>null\<close> (\<open>None\<close>) or a symbol.
\<close>

datatype symbol = SymX | SymO

type_synonym cell = "symbol option"

text \<open>
  \<open>msg.index\<close> after \<open>JSON.parse\<close>: a number, or any other value (string, boolean,
  \<open>null\<close>, object, missing). A JSON number need not be an integer, so the numbers are
  rationals.
\<close>

datatype jsindex = NotNumber | Num rat

text \<open>
  The board is a JavaScript array made by \<open>Array(9).fill(null)\<close>. Reading it at an
  array index gives the cell (or \<open>undefined\<close> beyond its length); a number that is not
  a non-negative integer names an ordinary property of the array object instead, which
  is absent until it is assigned. \<open>props\<close> holds those properties.
\<close>

record board =
  cells :: "cell list"
  props :: "rat \<Rightarrow> symbol option"

record scores =
  scoreX :: nat
  scoreO :: nat
  draws :: nat

text \<open>The fields shared by the game of the HTTP server and a room of the WebSocket server.\<close>

record game =
  board :: board
  currentPlayer :: symbol
  winner :: cell
  winningLine :: "nat list option"
  isDraw :: bool
  moveCount :: nat
  scores :: scores

section \<open>Game engine\<close>

definition WIN_PATTERNS :: "(nat \<times> nat \<times> nat) list" where
  "WIN_PATTERNS =
    [(0,1,2),(3,4,5),(6,7,8),
     (0,3,6),(1,4,7),(2,5,8),
     (0,4,8),(2,4,6)]"

text \<open>\<open>board[i]\<close> for an array index \<open>i\<close>: beyond the length the read is \<open>undefined\<close>, which
  is falsy and differs from every symbol, as \<open>null\<close> does.\<close>

definition cell_at :: "cell list \<Rightarrow> nat \<Rightarrow> cell" where
  "cell_at b i = (if i < length b then b ! i else None)"

text \<open>The \<open>for\<close> loop of \<open>checkWinner\<close> over the remaining patterns.\<close>

fun scan :: "cell list \<Rightarrow> (nat \<times> nat \<times> nat) list \<Rightarrow> (cell \<times> nat list) option" where
  "scan b [] = None"
| "scan b ((i, j, k) # ps) =
     (if cell_at b i \<noteq> None \<and> cell_at b i = cell_at b j \<and> cell_at b i = cell_at b k
      then Some (cell_at b i, [i, j, k])
      else scan b ps)"

definition checkWinner :: "cell list \<Rightarrow> (cell \<times> nat list) option" where
  "checkWinner b = scan b WIN_PATTERNS"

subsection \<open>The specification's description of the lines\<close>

definition row :: "nat \<Rightarrow> nat \<times> nat \<times> nat" where
  "row r = (3 * r, 3 * r + 1, 3 * r + 2)"

definition col :: "nat \<Rightarrow> nat \<times> nat \<times> nat" where
  "col c = (c, c + 3, c + 6)"

definition diagonals :: "(nat \<times> nat \<times> nat) list" where
  "diagonals = [(0, 4, 8), (2, 4, 6)]"

text \<open>Rows top-to-bottom, then columns left-to-right, then the two diagonals.\<close>

definition priority_order :: "(nat \<times> nat \<times> nat) list" where
  "priority_order = map row [0, 1, 2] @ map col [0, 1, 2] @ diagonals"

text \<open>A line is fully occupied by one symbol.\<close>

definition full_line :: "cell list \<Rightarrow> nat \<times> nat \<times> nat \<Rightarrow> bool" where
  "full_line b t =
     (case t of (i, j, k) \<Rightarrow> \<exists>s. cell_at b i = Some s \<and> cell_at b j = Some s \<and> cell_at b k = Some s)"

text \<open>The first line of the priority order that is fully occupied by one symbol, with
  that symbol.\<close>

definition checkWinner_spec :: "cell list \<Rightarrow> (cell \<times> nat list) option" where
  "checkWinner_spec b =
     (case find (full_line b) priority_order of
        None \<Rightarrow> None
      | Some (i, j, k) \<Rightarrow> Some (cell_at b i, [i, j, k]))"

subsection \<open>Placing a symbol and settling the round\<close>

text \<open>A number is an array index when it is a non-negative integer (\<open>-0\<close> is \<open>0\<close>).\<close>

definition is_index :: "rat \<Rightarrow> bool" where
  "is_index q \<longleftrightarrow> 0 \<le> q \<and> of_int \<lfloor>q\<rfloor> = q"

text \<open>\<open>board[index]\<close> is truthy.\<close>

definition truthy_at :: "board \<Rightarrow> rat \<Rightarrow> bool" where
  "truthy_at b q =
     (if is_index q then cell_at (cells b) (nat \<lfloor>q\<rfloor>) \<noteq> None else props b q \<noteq> None)"


text \<open>An assignment to an array element; beyond the length JavaScript extends the array
  (the holes read as empty). The boards of this program have nine cells and are written
  at indices up to 8 only.\<close>

definition array_set :: "cell list \<Rightarrow> nat \<Rightarrow> cell \<Rightarrow> cell list" where
  "array_set xs i v =
     (if i < length xs then xs[i := v] else xs @ replicate (i - length xs) None @ [v])"

text \<open>\<open>board[index] = symbol\<close>.\<close>

definition assign_at :: "board \<Rightarrow> rat \<Rightarrow> symbol \<Rightarrow> board" where
  "assign_at b q sy =
     (if is_index q then b\<lparr>cells := array_set (cells b) (nat \<lfloor>q\<rfloor>) (Some sy)\<rparr>
      else b\<lparr>props := (props b)(q \<mapsto> sy)\<rparr>)"

text \<open>\<open>board[index] = symbol; moveCount++\<close>.\<close>

definition place :: "'a game_scheme \<Rightarrow> rat \<Rightarrow> symbol \<Rightarrow> 'a game_scheme" where
  "place g q sy = g\<lparr>board := assign_at (board g) q sy, moveCount := moveCount g + 1\<rparr>"

text \<open>\<open>scores[result.winner]++\<close>. The winner returned by \<open>checkWinner\<close> is a truthy cell, so
  the case \<open>None\<close> does not arise. The counters are JavaScript numbers, exact far beyond any
  number of rounds that can be played; they are natural numbers here.\<close>

definition inc_score :: "cell \<Rightarrow> scores \<Rightarrow> scores" where
  "inc_score w sc =
     (case w of
        None \<Rightarrow> sc
      | Some SymX \<Rightarrow> sc\<lparr>scoreX := scoreX sc + 1\<rparr>
      | Some SymO \<Rightarrow> sc\<lparr>scoreO := scoreO sc + 1\<rparr>)"

text \<open>The win and draw check after a move (\<open>server.js\<close> lines 181 to 191, the same code as
  lines 61 to 71 of the HTTP server).\<close>

definition settle :: "'a game_scheme \<Rightarrow> 'a game_scheme" where
  "settle g =
     (case checkWinner (cells (board g)) of
        Some (w, line) \<Rightarrow>
          g\<lparr>winner := w, winningLine := Some line, scores := inc_score w (scores g)\<rparr>
      | None \<Rightarrow>
          if moveCount g = 9
          then g\<lparr>isDraw := True, scores := (scores g)\<lparr>draws := draws (scores g) + 1\<rparr>\<rparr>
          else g\<lparr>currentPlayer := (if currentPlayer g = SymX then SymO else SymX)\<rparr>)"

definition fresh_board :: board where
  "fresh_board = \<lparr>cells = replicate 9 None, props = (\<lambda>q. None)\<rparr>"

definition zero_scores :: scores where
  "zero_scores = \<lparr>scoreX = 0, scoreO = 0, draws = 0\<rparr>"

section \<open>The HTTP server with one game\<close>

definition createNewGame :: game where
  "createNewGame =
     \<lparr>board = fresh_board, currentPlayer = SymX, winner = None, winningLine = None,
      isDraw = False, moveCount = 0, scores = zero_scores\<rparr>"


definition api_reset :: "game \<Rightarrow> game" where
  "api_reset g = createNewGame\<lparr>scores := scores g\<rparr>"

definition api_new :: "game \<Rightarrow> game" where
  "api_new g = createNewGame"

section \<open>The WebSocket server with rooms\<close>

type_synonym conn_id = nat

type_synonym timer_id = nat

record room = game +
  code :: string
  players :: "symbol \<Rightarrow> conn_id option"
  disconnectTimers :: "symbol \<Rightarrow> timer_id option"
  lastActivity :: int

text \<open>A connection object \<open>ws\<close>: the two fields the server attaches to it, and the
  \<open>readyState\<close> of the library (1 is open, 3 is closed).\<close>

record conn =
  roomCode :: "string option"
  symbol :: "symbol option"
  readyState :: nat

text \<open>A pending \<open>setTimeout\<close> of the close handler: the connection and the symbol its
  callback has captured, and the delay in milliseconds.\<close>

record timer =
  t_ws :: conn_id
  t_sym :: symbol
  t_delay :: nat

record view =
  v_board :: "cell list"
  v_currentPlayer :: symbol
  v_winner :: cell
  v_winningLine :: "nat list option"
  v_isDraw :: bool
  v_scores :: scores
  v_mySymbol :: symbol
  v_opponentConnected :: bool
  v_playerCount :: nat

datatype outmsg =
    Created string symbol
  | Joined string symbol
  | StateMsg view
  | ErrorMsg string
  | OpponentLeft nat
  | RoomClosed string
  | SymbolUpdate symbol

datatype inmsg = Create | Join string | Move jsindex | Reset | New | Other

text \<open>The outcomes of \<open>Date.now()\<close>, \<open>Math.random() < 0.5\<close> and \<open>makeCode()\<close> while one
  message is handled. \<open>makeCode\<close> draws four characters of
  \<open>ABCDEFGHJKLMNPQRSTUVWXYZ23456789\<close> again and again until the code is not registered.\<close>

record chance =
  now :: int
  coin :: bool
  newCode :: string

text \<open>The store: the rooms by code, the connection objects and the pending timers.\<close>

record server =
  rooms :: "string \<Rightarrow> room option"
  conns :: "conn_id \<Rightarrow> conn"
  nextConn :: nat
  timers :: "timer_id \<Rightarrow> timer option"
  nextTimer :: nat

type_synonym outputs = "(conn_id \<times> outmsg) list"

definition ROOM_TTL :: int where
  "ROOM_TTL = 10 * 60 * 1000"

definition DISCONNECT_GRACE :: nat where
  "DISCONNECT_GRACE = 60 * 1000"

definition createRoom :: "string \<Rightarrow> int \<Rightarrow> room" where
  "createRoom c t =
     \<lparr>board = fresh_board, currentPlayer = SymX, winner = None, winningLine = None,
      isDraw = False, moveCount = 0, scores = zero_scores,
      code = c, players = (\<lambda>sy. None), disconnectTimers = (\<lambda>sy. None),
      lastActivity = t\<rparr>"

definition opp :: "symbol \<Rightarrow> symbol" where
  "opp sy = (if sy = SymX then SymO else SymX)"

definition roomState :: "room \<Rightarrow> symbol \<Rightarrow> view" where
  "roomState r sy =
     \<lparr>v_board = cells (board r), v_currentPlayer = currentPlayer r, v_winner = winner r,
      v_winningLine = winningLine r, v_isDraw = isDraw r, v_scores = scores r,
      v_mySymbol = sy, v_opponentConnected = (players r (opp sy) \<noteq> None),
      v_playerCount = (if players r SymX \<noteq> None then 1 else 0) +
                      (if players r SymO \<noteq> None then 1 else 0)\<rparr>"

text \<open>\<open>send(ws, data)\<close>: nothing is sent to \<open>null\<close> or to a connection that is not open.\<close>

definition send :: "server \<Rightarrow> conn_id option \<Rightarrow> outmsg \<Rightarrow> outputs" where
  "send s ws data =
     (case ws of
        None \<Rightarrow> []
      | Some w \<Rightarrow> if readyState (conns s w) = 1 then [(w, data)] else [])"

definition broadcastRoom :: "server \<Rightarrow> room \<Rightarrow> outputs" where
  "broadcastRoom s r =
     concat (map (\<lambda>sy. send s (players r sy) (StateMsg (roomState r sy))) [SymX, SymO])"

text \<open>The property key of \<open>rooms[ws.roomCode]\<close>: \<open>null\<close> is read as the string \<open>null\<close>.\<close>

definition prop_key :: "string option \<Rightarrow> string" where
  "prop_key rc = (case rc of None \<Rightarrow> ''null'' | Some c \<Rightarrow> c)"

definition set_conn :: "server \<Rightarrow> conn_id \<Rightarrow> string \<Rightarrow> symbol \<Rightarrow> conn_id \<Rightarrow> conn" where
  "set_conn s ws c sy = (conns s)(ws := (conns s ws)\<lparr>roomCode := Some c, symbol := Some sy\<rparr>)"

subsection \<open>create\<close>

definition on_create :: "server \<Rightarrow> conn_id \<Rightarrow> chance \<Rightarrow> server \<times> outputs" where
  "on_create s ws ch =
     (let sy = (if coin ch then SymX else SymO);
          r = (createRoom (newCode ch) (now ch))\<lparr>players := (\<lambda>x. None)(sy \<mapsto> ws)\<rparr>;
          s1 = s\<lparr>rooms := (rooms s)(newCode ch \<mapsto> r),
                 conns := set_conn s ws (code r) sy\<rparr>
      in (s1, send s1 (Some ws) (Created (code r) sy) @
              send s1 (Some ws) (StateMsg (roomState r sy))))"

subsection \<open>join\<close>

text \<open>\<open>toUpperCase\<close> and \<open>trim\<close> on the ASCII characters.\<close>

definition toUpperCase :: "string \<Rightarrow> string" where
  "toUpperCase =
     map (\<lambda>c. if 97 \<le> (of_char c :: nat) \<and> (of_char c :: nat) \<le> 122
               then char_of (of_char c - 32 :: nat) else c)"

definition is_space :: "char \<Rightarrow> bool" where
  "is_space c \<longleftrightarrow> (of_char c :: nat) \<in> {9, 10, 11, 12, 13, 32}"

definition trim :: "string \<Rightarrow> string" where
  "trim cs = rev (dropWhile is_space (rev (dropWhile is_space cs)))"

text \<open>The argument is \<open>(msg.code || '').toString()\<close>.\<close>

definition normalize_code :: "string \<Rightarrow> string" where
  "normalize_code raw = trim (toUpperCase raw)"

definition on_join :: "server \<Rightarrow> conn_id \<Rightarrow> string \<Rightarrow> chance \<Rightarrow> server \<times> outputs" where
  "on_join s ws raw ch =
     (let c = normalize_code raw in
      case rooms s c of
        None \<Rightarrow> (s, send s (Some ws) (ErrorMsg ''Room not found''))
      | Some r \<Rightarrow>
          (case find (\<lambda>sy. players r sy = None) [SymX, SymO] of
             None \<Rightarrow> (s, send s (Some ws) (ErrorMsg ''Room is full''))
           | Some available \<Rightarrow>
               let (tm, r1) =
                     (case disconnectTimers r available of
                        None \<Rightarrow> (timers s, r)
                      | Some t \<Rightarrow>
                          ((timers s)(t := None),
                           r\<lparr>disconnectTimers := (disconnectTimers r)(available := None)\<rparr>));
                   r2 = r1\<lparr>players := (players r1)(available \<mapsto> ws), lastActivity := now ch\<rparr>;
                   s1 = s\<lparr>rooms := (rooms s)(c \<mapsto> r2),
                          conns := set_conn s ws c available,
                          timers := tm\<rparr>
               in (s1, send s1 (Some ws) (Joined c available) @ broadcastRoom s1 r2)))"

subsection \<open>move\<close>

definition on_move :: "server \<Rightarrow> conn_id \<Rightarrow> jsindex \<Rightarrow> chance \<Rightarrow> server \<times> outputs" where
  "on_move s ws idx ch =
     (let k = prop_key (roomCode (conns s ws)) in
      case rooms s k of
        None \<Rightarrow> (s, [])
      | Some r \<Rightarrow>
          (case symbol (conns s ws) of
             None \<Rightarrow> (s, send s (Some ws) (ErrorMsg ''Not your turn''))
           | Some sy \<Rightarrow>
               if currentPlayer r \<noteq> sy
               then (s, send s (Some ws) (ErrorMsg ''Not your turn''))
               else
                 (case idx of
                    NotNumber \<Rightarrow> (s, send s (Some ws) (ErrorMsg ''Invalid move''))
                  | Num q \<Rightarrow>
                      if q < 0 \<or> q > 8 \<or> truthy_at (board r) q \<or> winner r \<noteq> None \<or> isDraw r
                      then (s, send s (Some ws) (ErrorMsg ''Invalid move''))
                      else
                        let r1 = settle ((place r q sy)\<lparr>lastActivity := now ch\<rparr>);
                            s1 = s\<lparr>rooms := (rooms s)(k \<mapsto> r1)\<rparr>
                        in (s1, broadcastRoom s1 r1))))"

subsection \<open>reset and new\<close>

text \<open>\<open>reshufflePlayers\<close> changes the room and the \<open>symbol\<close> fields of the connections in
  its slots; the second assignment wins when one connection is in both slots.\<close>

definition reshuffle_conns ::
  "(conn_id \<Rightarrow> conn) \<Rightarrow> conn_id option \<Rightarrow> conn_id option \<Rightarrow> conn_id \<Rightarrow> conn" where
  "reshuffle_conns cs p0 p1 =
     (let cs1 = (case p0 of None \<Rightarrow> cs | Some d \<Rightarrow> cs(d := (cs d)\<lparr>symbol := Some SymX\<rparr>))
      in (case p1 of None \<Rightarrow> cs1 | Some d \<Rightarrow> cs1(d := (cs1 d)\<lparr>symbol := Some SymO\<rparr>)))"

definition reshufflePlayers :: "bool \<Rightarrow> (conn_id \<Rightarrow> conn) \<Rightarrow> room \<Rightarrow> (conn_id \<Rightarrow> conn) \<times> room" where
  "reshufflePlayers flip cs r =
     (let p0 = (if flip then players r SymO else players r SymX);
          p1 = (if flip then players r SymX else players r SymO)
      in (reshuffle_conns cs p0 p1,
          r\<lparr>players := (players r)(SymX := p0, SymO := p1), currentPlayer := SymX\<rparr>))"

definition symbolUpdates :: "server \<Rightarrow> room \<Rightarrow> outputs" where
  "symbolUpdates s r = concat (map (\<lambda>sy. send s (players r sy) (SymbolUpdate sy)) [SymX, SymO])"

text \<open>The two handlers differ in the scores they assign only.\<close>

definition restart :: "scores \<Rightarrow> server \<Rightarrow> string \<Rightarrow> room \<Rightarrow> chance \<Rightarrow> server \<times> outputs" where
  "restart sc s k r ch =
     (let r1 = r\<lparr>board := fresh_board, currentPlayer := SymX, winner := None,
                 winningLine := None, isDraw := False, moveCount := 0, scores := sc\<rparr>;
          (cs, r2) = reshufflePlayers (coin ch) (conns s) r1;
          r3 = r2\<lparr>lastActivity := now ch\<rparr>;
          s1 = s\<lparr>rooms := (rooms s)(k \<mapsto> r3), conns := cs\<rparr>
      in (s1, symbolUpdates s1 r3 @ broadcastRoom s1 r3))"

definition on_reset :: "server \<Rightarrow> conn_id \<Rightarrow> chance \<Rightarrow> server \<times> outputs" where
  "on_reset s ws ch =
     (let k = prop_key (roomCode (conns s ws)) in
      case rooms s k of
        None \<Rightarrow> (s, [])
      | Some r \<Rightarrow> restart (scores r) s k r ch)"

definition on_new :: "server \<Rightarrow> conn_id \<Rightarrow> chance \<Rightarrow> server \<times> outputs" where
  "on_new s ws ch =
     (let k = prop_key (roomCode (conns s ws)) in
      case rooms s k of
        None \<Rightarrow> (s, [])
      | Some r \<Rightarrow> restart zero_scores s k r ch)"

subsection \<open>Disconnection\<close>

definition on_close :: "server \<Rightarrow> conn_id \<Rightarrow> server \<times> outputs" where
  "on_close s ws =
     (let k = prop_key (roomCode (conns s ws)) in
      case rooms s k of
        None \<Rightarrow> (s, [])
      | Some r \<Rightarrow>
          (case symbol (conns s ws) of
             None \<Rightarrow> (s, [])
           | Some sy \<Rightarrow>
               let r1 = r\<lparr>players := (players r)(sy := None)\<rparr>;
                   oppWs = players r1 (opp sy);
                   t = nextTimer s;
                   r2 = r1\<lparr>disconnectTimers := (disconnectTimers r1)(sy \<mapsto> t)\<rparr>;
                   s1 = s\<lparr>rooms := (rooms s)(k \<mapsto> r2),
                          timers := (timers s)(t \<mapsto>
                             \<lparr>t_ws = ws, t_sym = sy, t_delay = DISCONNECT_GRACE\<rparr>),
                          nextTimer := t + 1\<rparr>
               in (s1, send s oppWs (OpponentLeft 60))))"

text \<open>The callback of the grace timer.\<close>

definition on_timeout :: "server \<Rightarrow> timer \<Rightarrow> server \<times> outputs" where
  "on_timeout s tm =
     (let k = prop_key (roomCode (conns s (t_ws tm))) in
      case rooms s k of
        None \<Rightarrow> (s, [])
      | Some r \<Rightarrow>
          if players r (t_sym tm) = None
          then (s\<lparr>rooms := (rooms s)(k := None)\<rparr>,
                send s (players r (opp (t_sym tm))) (RoomClosed ''Opponent did not reconnect''))
          else (s, []))"

subsection \<open>Periodic cleanup\<close>

definition sweep :: "int \<Rightarrow> server \<Rightarrow> server" where
  "sweep t s =
     s\<lparr>rooms := (\<lambda>c. case rooms s c of
                        None \<Rightarrow> None
                      | Some r \<Rightarrow> if t - lastActivity r > ROOM_TTL then None else Some r)\<rparr>"

subsection \<open>The events of the server\<close>

definition on_message :: "server \<Rightarrow> conn_id \<Rightarrow> inmsg \<Rightarrow> chance \<Rightarrow> server \<times> outputs" where
  "on_message s ws m ch =
     (case m of
        Create \<Rightarrow> on_create s ws ch
      | Join raw \<Rightarrow> on_join s ws raw ch
      | Move idx \<Rightarrow> on_move s ws idx ch
      | Reset \<Rightarrow> on_reset s ws ch
      | New \<Rightarrow> on_new s ws ch
      | Other \<Rightarrow> (s, []))"

text \<open>
  What the runtime does around the handlers: a new connection is a new object, open, with
  \<open>roomCode\<close> and \<open>symbol\<close> set to \<open>null\<close>; messages arrive on open connections only; a
  connection closes once and is closed when its handler runs; a timer fires at most once,
  and not after \<open>clearTimeout\<close>; the cleanup runs with the current time.
\<close>

datatype event =
    Connect
  | Message conn_id inmsg chance
  | Close conn_id
  | Timeout timer_id
  | Sweep int

definition init :: server where
  "init = \<lparr>rooms = (\<lambda>c. None),
           conns = (\<lambda>w. \<lparr>roomCode = None, symbol = None, readyState = 3\<rparr>),
           nextConn = 0, timers = (\<lambda>t. None), nextTimer = 0\<rparr>"

definition live :: "server \<Rightarrow> conn_id \<Rightarrow> bool" where
  "live s ws \<longleftrightarrow> ws < nextConn s \<and> readyState (conns s ws) = 1"

fun step :: "server \<Rightarrow> event \<Rightarrow> server \<times> outputs" where
  "step s Connect =
     (s\<lparr>conns := (conns s)(nextConn s := \<lparr>roomCode = None, symbol = None, readyState = 1\<rparr>),
        nextConn := nextConn s + 1\<rparr>, [])"
| "step s (Message ws m ch) = (if live s ws then on_message s ws m ch else (s, []))"
| "step s (Close ws) =
     (if live s ws
      then on_close (s\<lparr>conns := (conns s)(ws := (conns s ws)\<lparr>readyState := 3\<rparr>)\<rparr>) ws
      else (s, []))"
| "step s (Timeout t) =
     (case timers s t of
        None \<Rightarrow> (s, [])
      | Some tm \<Rightarrow> on_timeout (s\<lparr>timers := (timers s)(t := None)\<rparr>) tm)"
| "step s (Sweep t) = (sweep t s, [])"

fun run :: "server \<Rightarrow> event list \<Rightarrow> server" where
  "run s [] = s"
| "run s (e # es) = run (fst (step s e)) es"

section \<open>Notions used in the statements\<close>

text \<open>The symbol \<open>w\<close> and the line \<open>l\<close> are those of the first line of \<open>ps\<close> that is fully
  occupied by one symbol.\<close>

definition first_full :: "cell list \<Rightarrow> (nat \<times> nat \<times> nat) list \<Rightarrow> cell \<Rightarrow> nat list \<Rightarrow> bool" where
  "first_full b ps w l \<longleftrightarrow>
     (\<exists>qs i j k rs. ps = qs @ (i, j, k) # rs \<and> (\<forall>t \<in> set qs. \<not> full_line b t) \<and>
        full_line b (i, j, k) \<and> w = cell_at b i \<and> l = [i, j, k])"

text \<open>The guard of an accepted move, on the index and the game.\<close>

definition legal :: "'a game_scheme \<Rightarrow> jsindex \<Rightarrow> bool" where
  "legal g idx =
     (case idx of
        NotNumber \<Rightarrow> False
      | Num q \<Rightarrow> 0 \<le> q \<and> q \<le> 8 \<and> \<not> truthy_at (board g) q \<and> winner g = None \<and> \<not> isDraw g)"




text \<open>Two rooms with the same game; a room whose game is cleared; a room and what an
  accepted move makes of it.\<close>

definition same_game :: "room \<Rightarrow> room \<Rightarrow> bool" where
  "same_game r r' \<longleftrightarrow>
     board r' = board r \<and> currentPlayer r' = currentPlayer r \<and> winner r' = winner r \<and>
     winningLine r' = winningLine r \<and> isDraw r' = isDraw r \<and> moveCount r' = moveCount r \<and>
     scores r' = scores r"

definition cleared :: "room \<Rightarrow> bool" where
  "cleared r' \<longleftrightarrow>
     board r' = fresh_board \<and> currentPlayer r' = SymX \<and> winner r' = None \<and>
     winningLine r' = None \<and> \<not> isDraw r' \<and> moveCount r' = 0"

definition moved :: "room \<Rightarrow> room \<Rightarrow> bool" where
  "moved r r' \<longleftrightarrow>
     (\<exists>q t. legal r (Num q) \<and> r' = settle ((place r q (currentPlayer r))\<lparr>lastActivity := t\<rparr>))"

text \<open>The room under a code after an event: the room that was there with the same game,
  a room with a cleared game, or the room that was there after an accepted move.\<close>

definition room_step :: "room option \<Rightarrow> room \<Rightarrow> bool" where
  "room_step old r' \<longleftrightarrow>
     (\<exists>r. old = Some r \<and> (same_game r r' \<or> moved r r')) \<or> cleared r'"

text \<open>No room has both a winner and a draw.\<close>

definition excl :: "server \<Rightarrow> bool" where
  "excl s \<longleftrightarrow> (\<forall>c r. rooms s c = Some r \<longrightarrow> \<not> (winner r \<noteq> None \<and> isDraw r))"


text \<open>The start of a round in the room under code \<open>k\<close> of the store \<open>s'\<close>: the game is
  cleared and it is the turn of \<open>X\<close>; a move of a connection of that room whose symbol is
  not \<open>X\<close> is refused, and a move to any cell by the holder of slot \<open>X\<close>, when its fields name
  the room and \<open>X\<close>, is accepted.\<close>

definition round_start :: "server \<Rightarrow> string \<Rightarrow> bool" where
  "round_start s' k \<longleftrightarrow>
     (\<exists>r'. rooms s' k = Some r' \<and> cleared r' \<and> currentPlayer r' = SymX \<and>
        (\<forall>w idx c. prop_key (roomCode (conns s' w)) = k \<and> symbol (conns s' w) \<noteq> Some SymX \<longrightarrow>
           on_move s' w idx c = (s', send s' (Some w) (ErrorMsg ''Not your turn''))) \<and>
        (\<forall>d q c. players r' SymX = Some d \<and> prop_key (roomCode (conns s' d)) = k \<and>
             symbol (conns s' d) = Some SymX \<and> 0 \<le> q \<and> q \<le> 8 \<longrightarrow>
           rooms (fst (on_move s' d (Num q) c)) k =
             Some (settle ((place r' q SymX)\<lparr>lastActivity := now c\<rparr>))))"

text \<open>The slots after the reshuffle of a restart: swapped when the coin says so; the holder
  of slot \<open>O\<close> has the symbol \<open>O\<close>, and the holder of slot \<open>X\<close> has the symbol \<open>X\<close> unless it
  holds slot \<open>O\<close> as well.\<close>

definition reshuffled :: "room \<Rightarrow> bool \<Rightarrow> server \<Rightarrow> string \<Rightarrow> bool" where
  "reshuffled r flip s' k \<longleftrightarrow>
     (\<exists>r'. rooms s' k = Some r' \<and>
        players r' SymX = (if flip then players r SymO else players r SymX) \<and>
        players r' SymO = (if flip then players r SymX else players r SymO) \<and>
        (\<forall>d. players r' SymO = Some d \<longrightarrow> symbol (conns s' d) = Some SymO) \<and>
        (\<forall>d. players r' SymX = Some d \<and> players r' SymO \<noteq> Some d \<longrightarrow>
           symbol (conns s' d) = Some SymX))"

text \<open>The connection holds slot \<open>sy\<close> of the room under code \<open>c\<close>.\<close>

definition holds :: "server \<Rightarrow> conn_id \<Rightarrow> string \<Rightarrow> symbol \<Rightarrow> bool" where
  "holds s ws c sy = (case rooms s c of None \<Rightarrow> False | Some r \<Rightarrow> players r sy = Some ws)"





section \<open>Concrete runs\<close>

text \<open>Two connections; the first creates the room \<open>ABCD\<close> and gets \<open>X\<close>, the second joins
  it.\<close>

definition ex_chance :: chance where
  "ex_chance = \<lparr>now = 1000, coin = True, newCode = ''ABCD''\<rparr>"

definition ex_events :: "event list" where
  "ex_events =
     [Connect, Connect, Message 0 Create ex_chance, Message 1 (Join '' abcd '') ex_chance]"

definition ex_server :: server where
  "ex_server = run init ex_events"

definition ex_room :: room where
  "ex_room = (createRoom ''ABCD'' 1000)\<lparr>players := (\<lambda>x. None)(SymX \<mapsto> 0, SymO \<mapsto> 1)\<rparr>"

text \<open>The two players of the concrete run play until \<open>X\<close> has the top row.\<close>

definition ex_win_events :: "event list" where
  "ex_win_events = ex_events @
     [Message 0 (Move (Num 0)) ex_chance, Message 1 (Move (Num 3)) ex_chance,
      Message 0 (Move (Num 1)) ex_chance, Message 1 (Move (Num 4)) ex_chance,
      Message 0 (Move (Num 2)) ex_chance]"





section \<open>Properties of the game engine\<close>

lemma WIN_PATTERNS_priority_order: "WIN_PATTERNS = priority_order"
  by (simp add: WIN_PATTERNS_def priority_order_def row_def col_def diagonals_def)

lemma full_line_iff:
  "full_line b (i, j, k) \<longleftrightarrow> cell_at b i \<noteq> None \<and> cell_at b i = cell_at b j \<and> cell_at b i = cell_at b k"
  by (auto simp: full_line_def)

lemma scan_Cons:
  "scan b ((i, j, k) # ps) =
     (if full_line b (i, j, k) then Some (cell_at b i, [i, j, k]) else scan b ps)"
  by (simp only: scan.simps full_line_iff)

lemma scan_find:
  "scan b ps =
     (case find (full_line b) ps of
        None \<Rightarrow> None
      | Some (i, j, k) \<Rightarrow> Some (cell_at b i, [i, j, k]))"
proof (induction ps)
  case Nil
  show ?case by simp
next
  case (Cons t ps)
  obtain i j k where t: "t = (i, j, k)" by (cases t)
  show ?case
    unfolding t using Cons.IH by (simp add: scan_Cons del: scan.simps)
qed

lemma scan_None_iff: "scan b ps = None \<longleftrightarrow> (\<forall>t \<in> set ps. \<not> full_line b t)"
proof (induction ps)
  case Nil
  show ?case by simp
next
  case (Cons t ps)
  obtain i j k where t: "t = (i, j, k)" by (cases t)
  show ?case
    unfolding t using Cons.IH by (simp add: scan_Cons del: scan.simps)
qed

lemma first_full_Nil: "\<not> first_full b [] w l"
  by (simp add: first_full_def)

lemma first_full_here:
  assumes "full_line b (i, j, k)"
  shows "first_full b ((i, j, k) # ps) w l \<longleftrightarrow> w = cell_at b i \<and> l = [i, j, k]"
proof
  assume "first_full b ((i, j, k) # ps) w l"
  then obtain qs i' j' k' rs where
    eq: "(i, j, k) # ps = qs @ (i', j', k') # rs" and
    no: "\<forall>t \<in> set qs. \<not> full_line b t" and
    res: "w = cell_at b i'" "l = [i', j', k']"
    unfolding first_full_def by blast
  have "qs = []"
  proof (cases qs)
    case Nil
    then show ?thesis .
  next
    case (Cons q qs')
    with eq have "q = (i, j, k)" by simp
    with no Cons assms show ?thesis by simp
  qed
  with eq res show "w = cell_at b i \<and> l = [i, j, k]" by simp
next
  assume r: "w = cell_at b i \<and> l = [i, j, k]"
  have "(i, j, k) # ps = [] @ (i, j, k) # ps" by simp
  moreover have "\<forall>t \<in> set []. \<not> full_line b t" by simp
  ultimately show "first_full b ((i, j, k) # ps) w l"
    unfolding first_full_def using assms r by blast
qed

lemma first_full_later:
  assumes "\<not> full_line b (i, j, k)"
  shows "first_full b ((i, j, k) # ps) w l \<longleftrightarrow> first_full b ps w l"
proof
  assume "first_full b ((i, j, k) # ps) w l"
  then obtain qs i' j' k' rs where
    eq: "(i, j, k) # ps = qs @ (i', j', k') # rs" and
    no: "\<forall>t \<in> set qs. \<not> full_line b t" and
    fl: "full_line b (i', j', k')" and
    res: "w = cell_at b i'" "l = [i', j', k']"
    unfolding first_full_def by blast
  show "first_full b ps w l"
  proof (cases qs)
    case Nil
    with eq fl assms show ?thesis by simp
  next
    case (Cons q qs')
    with eq have "ps = qs' @ (i', j', k') # rs" by simp
    moreover from no Cons have "\<forall>t \<in> set qs'. \<not> full_line b t" by simp
    ultimately show ?thesis unfolding first_full_def using fl res by blast
  qed
next
  assume "first_full b ps w l"
  then obtain qs i' j' k' rs where
    eq: "ps = qs @ (i', j', k') # rs" and
    no: "\<forall>t \<in> set qs. \<not> full_line b t" and
    fl: "full_line b (i', j', k')" and
    res: "w = cell_at b i'" "l = [i', j', k']"
    unfolding first_full_def by blast
  have "(i, j, k) # ps = ((i, j, k) # qs) @ (i', j', k') # rs" using eq by simp
  moreover have "\<forall>t \<in> set ((i, j, k) # qs). \<not> full_line b t" using no assms by simp
  ultimately show "first_full b ((i, j, k) # ps) w l"
    unfolding first_full_def using fl res by blast
qed

lemma scan_Some_first: "scan b ps = Some (w, l) \<longleftrightarrow> first_full b ps w l"
proof (induction ps)
  case Nil
  show ?case by (simp add: first_full_Nil)
next
  case (Cons t ps)
  obtain i j k where t: "t = (i, j, k)" by (cases t)
  show ?case
  proof (cases "full_line b (i, j, k)")
    case True
    then show ?thesis
      unfolding t by (simp add: scan_Cons first_full_here del: scan.simps) blast
  next
    case False
    then show ?thesis
      unfolding t using Cons.IH by (simp add: scan_Cons first_full_later del: scan.simps)
  qed
qed

text \<open>
  Claim C1. For every board, \<open>checkWinner\<close> goes through the eight winning triples in the
  order rows top-to-bottom, columns left-to-right, the two diagonals, and returns the
  symbol and the triple of the first one whose three cells hold the same symbol; it
  returns nothing exactly when no row, column or diagonal is fully occupied by one symbol.
\<close>

theorem checkWinner_first_full_line:
  "WIN_PATTERNS = map row [0, 1, 2] @ map col [0, 1, 2] @ diagonals \<and>
   checkWinner b = checkWinner_spec b \<and>
   (checkWinner b = Some (w, l) \<longleftrightarrow>
      (\<exists>qs i j k rs. priority_order = qs @ (i, j, k) # rs \<and>
         (\<forall>t \<in> set qs. \<not> full_line b t) \<and> full_line b (i, j, k) \<and>
         w = cell_at b i \<and> l = [i, j, k])) \<and>
   (checkWinner b = None \<longleftrightarrow>
      \<not> (\<exists>t \<in> set (map row [0, 1, 2] @ map col [0, 1, 2] @ diagonals). full_line b t))"
proof -
  have a: "WIN_PATTERNS = map row [0, 1, 2] @ map col [0, 1, 2] @ diagonals"
    using WIN_PATTERNS_priority_order by (simp add: priority_order_def)
  have b: "checkWinner b = checkWinner_spec b"
    unfolding checkWinner_def checkWinner_spec_def WIN_PATTERNS_priority_order
    by (rule scan_find)
  have c: "checkWinner b = Some (w, l) \<longleftrightarrow>
      (\<exists>qs i j k rs. priority_order = qs @ (i, j, k) # rs \<and>
         (\<forall>t \<in> set qs. \<not> full_line b t) \<and> full_line b (i, j, k) \<and>
         w = cell_at b i \<and> l = [i, j, k])"
    unfolding checkWinner_def WIN_PATTERNS_priority_order scan_Some_first first_full_def ..
  have d: "checkWinner b = None \<longleftrightarrow>
      \<not> (\<exists>t \<in> set (map row [0, 1, 2] @ map col [0, 1, 2] @ diagonals). full_line b t)"
    unfolding checkWinner_def a [symmetric] by (simp add: scan_None_iff)
  from a b c d show ?thesis by blast
qed

section \<open>Rejected moves\<close>

lemma send_open: "readyState (conns s ws) = 1 \<Longrightarrow> send s (Some ws) m = [(ws, m)]"
  by (simp add: send_def)

lemma checkWinner_winner: "checkWinner b = Some (w, l) \<Longrightarrow> w \<noteq> None"
  unfolding checkWinner_def scan_Some_first first_full_def full_line_def by auto

lemma is_index_of_nat: "is_index (of_nat i)"
  by (simp add: is_index_def)

lemma truthy_at_cell: "truthy_at b (of_nat i) \<longleftrightarrow> cell_at (cells b) i \<noteq> None"
  by (simp add: truthy_at_def is_index_of_nat)

lemma on_move_not_your_turn:
  assumes "rooms s (prop_key (roomCode (conns s ws))) = Some r"
    and "symbol (conns s ws) \<noteq> Some (currentPlayer r)"
  shows "on_move s ws idx ch = (s, send s (Some ws) (ErrorMsg ''Not your turn''))"
  using assms by (auto simp: on_move_def split: option.splits)

lemma on_move_invalid:
  assumes "rooms s (prop_key (roomCode (conns s ws))) = Some r"
    and "symbol (conns s ws) = Some (currentPlayer r)"
    and "idx = NotNumber \<or> (\<exists>q. idx = Num q \<and> (q < 0 \<or> 8 < q \<or> truthy_at (board r) q)) \<or>
         winner r \<noteq> None \<or> isDraw r"
  shows "on_move s ws idx ch = (s, send s (Some ws) (ErrorMsg ''Invalid move''))"
  using assms by (auto simp: on_move_def split: option.splits jsindex.splits)

text \<open>
  Claim C2. A bound connection whose symbol is the room's \<open>currentPlayer\<close> and whose move
  has an index that is not a number or lies outside 0 to 8, or aims at an occupied cell, or
  comes when \<open>winner\<close> or \<open>isDraw\<close> is set, receives the error \<open>Invalid move\<close>; a sender
  whose symbol is not \<open>currentPlayer\<close> receives \<open>Not your turn\<close>. In both cases the whole
  store, and so the room, is unchanged and the error is the only message sent: there is no
  state broadcast.
\<close>

theorem move_rejected:
  assumes room: "rooms s (prop_key (roomCode (conns s ws))) = Some r"
    and "open": "readyState (conns s ws) = 1"
  shows "(symbol (conns s ws) = Some (currentPlayer r) \<and>
            (idx = NotNumber \<or> (\<exists>q. idx = Num q \<and> (q < 0 \<or> 8 < q)) \<or>
             (\<exists>i. idx = Num (of_nat i) \<and> cell_at (cells (board r)) i \<noteq> None) \<or>
             (\<exists>q. idx = Num q \<and> truthy_at (board r) q) \<or>
             winner r \<noteq> None \<or> isDraw r) \<longrightarrow>
          on_move s ws idx ch = (s, [(ws, ErrorMsg ''Invalid move'')])) \<and>
         (symbol (conns s ws) \<noteq> Some (currentPlayer r) \<longrightarrow>
          on_move s ws idx ch = (s, [(ws, ErrorMsg ''Not your turn'')]))"
proof (intro conjI impI)
  assume a: "symbol (conns s ws) = Some (currentPlayer r) \<and>
            (idx = NotNumber \<or> (\<exists>q. idx = Num q \<and> (q < 0 \<or> 8 < q)) \<or>
             (\<exists>i. idx = Num (of_nat i) \<and> cell_at (cells (board r)) i \<noteq> None) \<or>
             (\<exists>q. idx = Num q \<and> truthy_at (board r) q) \<or>
             winner r \<noteq> None \<or> isDraw r)"
  then have "idx = NotNumber \<or> (\<exists>q. idx = Num q \<and> (q < 0 \<or> 8 < q \<or> truthy_at (board r) q)) \<or>
         winner r \<noteq> None \<or> isDraw r"
    using truthy_at_cell by blast
  with a room have "on_move s ws idx ch = (s, send s (Some ws) (ErrorMsg ''Invalid move''))"
    by (intro on_move_invalid) auto
  then show "on_move s ws idx ch = (s, [(ws, ErrorMsg ''Invalid move'')])"
    using "open" by (simp add: send_open)
next
  assume "symbol (conns s ws) \<noteq> Some (currentPlayer r)"
  with room have "on_move s ws idx ch = (s, send s (Some ws) (ErrorMsg ''Not your turn''))"
    by (rule on_move_not_your_turn)
  then show "on_move s ws idx ch = (s, [(ws, ErrorMsg ''Not your turn'')])"
    using "open" by (simp add: send_open)
qed

section \<open>Accepted moves\<close>

lemma opp_neq: "opp sy \<noteq> sy"
  by (simp add: opp_def)

lemma opp_opp: "opp (opp sy) = sy"
  by (cases sy) (simp_all add: opp_def)

lemma settle_board [simp]: "board (settle g) = board g"
  by (simp add: settle_def split: option.splits)

lemma settle_moveCount [simp]: "moveCount (settle g) = moveCount g"
  by (simp add: settle_def split: option.splits)

lemma settle_more [simp]: "game.more (settle g) = game.more g"
  by (simp add: settle_def split: option.splits)

lemma settle_win:
  assumes "checkWinner (cells (board g)) = Some (w, l)"
  shows "settle g = g\<lparr>winner := w, winningLine := Some l, scores := inc_score w (scores g)\<rparr>"
  using assms by (simp add: settle_def)

lemma settle_draw:
  assumes "checkWinner (cells (board g)) = None" and "moveCount g = 9"
  shows "settle g = g\<lparr>isDraw := True, scores := (scores g)\<lparr>draws := draws (scores g) + 1\<rparr>\<rparr>"
  using assms by (simp add: settle_def)

lemma settle_turn:
  assumes "checkWinner (cells (board g)) = None" and "moveCount g \<noteq> 9"
  shows "settle g = g\<lparr>currentPlayer := opp (currentPlayer g)\<rparr>"
  using assms by (simp add: settle_def opp_def)

lemma inc_score_draws [simp]: "draws (inc_score w sc) = draws sc"
  by (simp add: inc_score_def split: option.splits symbol.splits)

text \<open>What the win and draw check does to a game that was undecided.\<close>

lemma settle_undecided:
  assumes "winner g = None" and "\<not> isDraw g"
  shows "(winner (settle g) = None \<and> \<not> isDraw (settle g) \<longleftrightarrow>
            checkWinner (cells (board g)) = None \<and> moveCount g \<noteq> 9)"
    and "(isDraw (settle g) \<longleftrightarrow> moveCount g = 9 \<and> checkWinner (cells (board g)) = None)"
    and "(winner (settle g) \<noteq> None \<longleftrightarrow> checkWinner (cells (board g)) \<noteq> None)"
    and "\<not> (winner (settle g) \<noteq> None \<and> isDraw (settle g))"
proof -
  show "(winner (settle g) = None \<and> \<not> isDraw (settle g) \<longleftrightarrow>
            checkWinner (cells (board g)) = None \<and> moveCount g \<noteq> 9)"
  proof (cases "checkWinner (cells (board g))")
    case None
    then show ?thesis using assms by (cases "moveCount g = 9") (simp_all add: settle_draw settle_turn)
  next
    case (Some p)
    obtain w l where p: "p = (w, l)" by (cases p)
    from Some p checkWinner_winner have "w \<noteq> None" by blast
    then show ?thesis using Some p by (simp add: settle_win)
  qed
  show "(isDraw (settle g) \<longleftrightarrow> moveCount g = 9 \<and> checkWinner (cells (board g)) = None)"
  proof (cases "checkWinner (cells (board g))")
    case None
    then show ?thesis using assms by (cases "moveCount g = 9") (simp_all add: settle_draw settle_turn)
  next
    case (Some p)
    obtain w l where p: "p = (w, l)" by (cases p)
    then show ?thesis using Some assms by (simp add: settle_win)
  qed
  show "(winner (settle g) \<noteq> None \<longleftrightarrow> checkWinner (cells (board g)) \<noteq> None)"
  proof (cases "checkWinner (cells (board g))")
    case None
    then show ?thesis using assms by (cases "moveCount g = 9") (simp_all add: settle_draw settle_turn)
  next
    case (Some p)
    obtain w l where p: "p = (w, l)" by (cases p)
    from Some p checkWinner_winner have "w \<noteq> None" by blast
    then show ?thesis using Some p by (simp add: settle_win)
  qed
  show "\<not> (winner (settle g) \<noteq> None \<and> isDraw (settle g))"
  proof (cases "checkWinner (cells (board g))")
    case None
    then show ?thesis using assms by (cases "moveCount g = 9") (simp_all add: settle_draw settle_turn)
  next
    case (Some p)
    obtain w l where p: "p = (w, l)" by (cases p)
    then show ?thesis using Some assms by (simp add: settle_win)
  qed
qed

lemma settle_currentPlayer:
  "currentPlayer (settle g) =
     (if checkWinner (cells (board g)) = None \<and> moveCount g \<noteq> 9
      then opp (currentPlayer g) else currentPlayer g)"
proof (cases "checkWinner (cells (board g))")
  case None
  then show ?thesis by (cases "moveCount g = 9") (simp_all add: settle_draw settle_turn)
next
  case (Some p)
  obtain w l where p: "p = (w, l)" by (cases p)
  then show ?thesis using Some by (simp add: settle_win)
qed

lemma settle_scores:
  "scores (settle g) =
     (case checkWinner (cells (board g)) of
        Some (w, l) \<Rightarrow> inc_score w (scores g)
      | None \<Rightarrow> if moveCount g = 9 then (scores g)\<lparr>draws := draws (scores g) + 1\<rparr> else scores g)"
  by (simp add: settle_def split: option.splits)

lemma settle_winner:
  "winner (settle g) =
     (case checkWinner (cells (board g)) of Some (w, l) \<Rightarrow> w | None \<Rightarrow> winner g)"
  by (simp add: settle_def split: option.splits)

lemma settle_winningLine:
  "winningLine (settle g) =
     (case checkWinner (cells (board g)) of Some (w, l) \<Rightarrow> Some l | None \<Rightarrow> winningLine g)"
  by (simp add: settle_def split: option.splits)

text \<open>The accepted branch of the move handler.\<close>

lemma on_move_accepted:
  assumes "rooms s (prop_key (roomCode (conns s ws))) = Some r"
    and "symbol (conns s ws) = Some (currentPlayer r)"
    and "legal r (Num q)"
  shows "on_move s ws (Num q) ch =
     (let r1 = settle ((place r q (currentPlayer r))\<lparr>lastActivity := now ch\<rparr>);
          s1 = s\<lparr>rooms := (rooms s)(prop_key (roomCode (conns s ws)) \<mapsto> r1)\<rparr>
      in (s1, broadcastRoom s1 r1))"
  using assms by (auto simp: on_move_def legal_def Let_def)



lemma place_fields [simp]:
  "board (place g q sy) = assign_at (board g) q sy"
  "moveCount (place g q sy) = moveCount g + 1"
  "winner (place g q sy) = winner g"
  "isDraw (place g q sy) = isDraw g"
  "currentPlayer (place g q sy) = currentPlayer g"
  "scores (place g q sy) = scores g"
  "winningLine (place g q sy) = winningLine g"
  "game.more (place g q sy) = game.more g"
  by (simp_all add: place_def)


lemma nat_floor_of_nat: "nat \<lfloor>(of_nat i :: rat)\<rfloor> = i"
  by simp



lemma is_index_nat: "is_index q \<Longrightarrow> q = of_nat (nat \<lfloor>q\<rfloor>)"
  by (auto simp: is_index_def)




lemma legal_undecided: "legal g idx \<Longrightarrow> winner g = None \<and> \<not> isDraw g"
  by (cases idx) (simp_all add: legal_def)


text \<open>The guard admits a number between 0 and 8 that is not an integer: the assignment
  then adds a property to the array object and leaves the nine cells as they were, and the
  move is counted.\<close>

lemma not_index_place:
  assumes "\<not> is_index q"
  shows "cells (board (place g q sy)) = cells (board g) \<and>
         moveCount (place g q sy) = moveCount g + 1"
  using assms by (simp add: assign_at_def)

lemma on_move_accepted_room:
  assumes "rooms s (prop_key (roomCode (conns s ws))) = Some r"
    and "symbol (conns s ws) = Some (currentPlayer r)"
    and "legal r (Num q)"
  shows "rooms (fst (on_move s ws (Num q) ch)) (prop_key (roomCode (conns s ws))) =
           Some (settle ((place r q (currentPlayer r))\<lparr>lastActivity := now ch\<rparr>))"
  by (simp add: on_move_accepted [OF assms] Let_def)



section \<open>The concrete run, evaluated\<close>

lemma normalize_ex: "normalize_code '' abcd '' = ''ABCD''"
  by code_simp

lemmas handler_defs = on_message_def on_create_def on_join_def on_reset_def on_new_def
  on_close_def on_timeout_def restart_def reshufflePlayers_def reshuffle_conns_def
  send_def broadcastRoom_def symbolUpdates_def roomState_def set_conn_def createRoom_def
  live_def init_def prop_key_def opp_def Let_def

lemma ex_rooms: "rooms ex_server ''ABCD'' = Some ex_room"
  by (simp add: ex_server_def ex_room_def ex_events_def ex_chance_def handler_defs normalize_ex)

lemma ex_conn0:
  "conns ex_server 0 = \<lparr>roomCode = Some ''ABCD'', symbol = Some SymX, readyState = 1\<rparr>"
  by (simp add: ex_server_def ex_events_def ex_chance_def handler_defs normalize_ex)

lemma ex_conn1:
  "conns ex_server (Suc 0) = \<lparr>roomCode = Some ''ABCD'', symbol = Some SymO, readyState = 1\<rparr>"
  by (simp add: ex_server_def ex_events_def ex_chance_def handler_defs normalize_ex)

lemma fresh_cells:
  "cells fresh_board = [None, None, None, None, None, None, None, None, None]"
  by (simp add: fresh_board_def eval_nat_numeral)

lemma ex_room_fields:
  "cells (board ex_room) = [None, None, None, None, None, None, None, None, None]"
  "props (board ex_room) = (\<lambda>q. None)"
  "currentPlayer ex_room = SymX" "winner ex_room = None" "\<not> isDraw ex_room"
  "moveCount ex_room = 0" "scores ex_room = zero_scores"
  by (simp_all add: ex_room_def createRoom_def fresh_cells) (simp add: fresh_board_def)


theorem checkWinner_first_full_line_witness:
  "checkWinner [Some SymO, Some SymO, None, Some SymX, Some SymX, Some SymX, None, None, None] =
     Some (Some SymX, [3, 4, 5]) \<and>
   checkWinner [Some SymX, Some SymO, Some SymX, Some SymX, Some SymO, Some SymO, Some SymO,
     Some SymX, Some SymX] = None"
proof -
  let ?b = "[Some SymO, Some SymO, None, Some SymX, Some SymX, Some SymX, None, None, None]"
  let ?d = "[Some SymX, Some SymO, Some SymX, Some SymX, Some SymO, Some SymO, Some SymO,
     Some SymX, Some SymX]"
  have 1: "checkWinner_spec ?b = Some (Some SymX, [3, 4, 5])"
    by (simp add: checkWinner_spec_def priority_order_def row_def col_def diagonals_def
        full_line_def cell_at_def)
  have 2: "\<not> (\<exists>t \<in> set (map row [0, 1, 2] @ map col [0, 1, 2] @ diagonals). full_line ?d t)"
    by (simp add: row_def col_def diagonals_def full_line_def cell_at_def)
  have "checkWinner ?b = checkWinner_spec ?b"
    using checkWinner_first_full_line [of ?b] by blast
  moreover have "checkWinner ?d = None"
    using checkWinner_first_full_line [of ?d] 2 by blast
  ultimately show ?thesis using 1 by simp
qed

theorem move_rejected_witness:
  "on_move ex_server 1 (Num 0) ex_chance = (ex_server, [(1, ErrorMsg ''Not your turn'')]) \<and>
   on_move ex_server 0 (Num 9) ex_chance = (ex_server, [(0, ErrorMsg ''Invalid move'')]) \<and>
   on_move ex_server 0 NotNumber ex_chance = (ex_server, [(0, ErrorMsg ''Invalid move'')])"
  using move_rejected [of ex_server 1 ex_room "Num 0" ex_chance]
    move_rejected [of ex_server 0 ex_room "Num 9" ex_chance]
    move_rejected [of ex_server 0 ex_room NotNumber ex_chance]
  by (simp add: ex_rooms ex_conn0 ex_conn1 prop_key_def ex_room_fields)





lemma ex_api_legal: "legal createNewGame (Num 0)"
  using is_index_of_nat [of 0] 
  by (simp add: legal_def truthy_at_def createNewGame_def fresh_cells cell_at_def)




section \<open>What one event does to a room\<close>

lemma same_game_refl: "same_game r r"
  by (simp add: same_game_def)

lemma room_step_refl: "room_step (Some r') r'"
  by (simp add: room_step_def same_game_refl)

lemma on_create_rooms:
  assumes "rooms (fst (on_create s ws ch)) c = Some r'"
  shows "room_step (rooms s c) r'"
  using assms
  by (auto simp: on_create_def Let_def createRoom_def room_step_def cleared_def same_game_refl
      split: if_splits)

lemma on_join_rooms:
  assumes "rooms (fst (on_join s ws raw ch)) c = Some r'"
  shows "room_step (rooms s c) r'"
  using assms
  by (auto simp: on_join_def Let_def room_step_def same_game_def
      split: if_splits option.splits prod.splits)

lemma on_move_cases:
  "on_move s ws idx ch = (s, snd (on_move s ws idx ch)) \<and>
     set (snd (on_move s ws idx ch)) \<subseteq>
       {(ws, ErrorMsg ''Not your turn''), (ws, ErrorMsg ''Invalid move'')} \<or>
   (\<exists>r q. rooms s (prop_key (roomCode (conns s ws))) = Some r \<and>
      symbol (conns s ws) = Some (currentPlayer r) \<and> idx = Num q \<and> legal r (Num q))"
  by (auto simp: on_move_def Let_def legal_def send_def split: option.splits jsindex.splits)

lemma on_move_rooms:
  assumes "rooms (fst (on_move s ws idx ch)) c = Some r'"
  shows "room_step (rooms s c) r'"
proof -
  from on_move_cases [of s ws idx ch] show ?thesis
  proof
    assume "on_move s ws idx ch = (s, snd (on_move s ws idx ch)) \<and>
     set (snd (on_move s ws idx ch)) \<subseteq>
       {(ws, ErrorMsg ''Not your turn''), (ws, ErrorMsg ''Invalid move'')}"
    then have "fst (on_move s ws idx ch) = s" by (metis fst_conv)
    with assms show ?thesis by (simp add: room_step_refl)
  next
    assume "\<exists>r q. rooms s (prop_key (roomCode (conns s ws))) = Some r \<and>
      symbol (conns s ws) = Some (currentPlayer r) \<and> idx = Num q \<and> legal r (Num q)"
    then obtain r q where r: "rooms s (prop_key (roomCode (conns s ws))) = Some r"
      and t: "symbol (conns s ws) = Some (currentPlayer r)"
      and q: "idx = Num q" and l: "legal r (Num q)" by blast
    note acc = on_move_accepted [OF r t l, of ch]
    show ?thesis
    proof (cases "c = prop_key (roomCode (conns s ws))")
      case True
      with assms acc q
      have "r' = settle ((place r q (currentPlayer r))\<lparr>lastActivity := now ch\<rparr>)"
        by (simp add: Let_def)
      with l have "moved r r'" unfolding moved_def by blast
      with r True show ?thesis by (simp add: room_step_def)
    next
      case False
      with assms acc q have "rooms s c = Some r'" by (simp add: Let_def)
      then show ?thesis by (simp add: room_step_refl)
    qed
  qed
qed

lemma restart_rooms:
  assumes "rooms (fst (restart sc s k r ch)) c = Some r'"
  shows "room_step (rooms s c) r'"
  using assms
  by (auto simp: restart_def reshufflePlayers_def Let_def room_step_def cleared_def
      same_game_refl split: if_splits)

lemma on_reset_rooms:
  assumes "rooms (fst (on_reset s ws ch)) c = Some r'"
  shows "room_step (rooms s c) r'"
  using assms
  by (auto simp: on_reset_def Let_def room_step_refl restart_rooms split: option.splits)

lemma on_new_rooms:
  assumes "rooms (fst (on_new s ws ch)) c = Some r'"
  shows "room_step (rooms s c) r'"
  using assms
  by (auto simp: on_new_def Let_def room_step_refl restart_rooms split: option.splits)

lemma on_close_rooms:
  assumes "rooms (fst (on_close s ws)) c = Some r'"
  shows "room_step (rooms s c) r'"
  using assms
  by (auto simp: on_close_def Let_def room_step_def same_game_def
      split: if_splits option.splits)

lemma on_timeout_rooms:
  assumes "rooms (fst (on_timeout s tm)) c = Some r'"
  shows "room_step (rooms s c) r'"
  using assms
  by (auto simp: on_timeout_def Let_def room_step_def same_game_def
      split: if_splits option.splits)

lemma sweep_rooms:
  assumes "rooms (sweep t s) c = Some r'"
  shows "room_step (rooms s c) r'"
  using assms
  by (auto simp: sweep_def room_step_def same_game_def split: if_splits option.splits)

lemma on_message_rooms:
  assumes "rooms (fst (on_message s ws m ch)) c = Some r'"
  shows "room_step (rooms s c) r'"
  using assms
  by (cases m)
    (simp_all add: on_message_def on_create_rooms on_join_rooms on_move_rooms on_reset_rooms
      on_new_rooms room_step_refl)

lemma step_rooms:
  assumes "rooms (fst (step s e)) c = Some r'"
  shows "room_step (rooms s c) r'"
proof (cases e)
  case Connect
  with assms show ?thesis by (simp add: room_step_refl)
next
  case (Message ws m ch)
  with assms show ?thesis
    by (cases "live s ws") (simp_all add: on_message_rooms room_step_refl)
next
  case (Close ws)
  show ?thesis
  proof (cases "live s ws")
    case True
    with assms Close
    have "room_step (rooms (s\<lparr>conns := (conns s)(ws := (conns s ws)\<lparr>readyState := 3\<rparr>)\<rparr>) c) r'"
      by (intro on_close_rooms) simp
    then show ?thesis by simp
  next
    case False
    with assms Close show ?thesis by (simp add: room_step_refl)
  qed
next
  case (Timeout t)
  show ?thesis
  proof (cases "timers s t")
    case None
    with assms Timeout show ?thesis by (simp add: room_step_refl)
  next
    case (Some tm)
    with assms Timeout
    have "room_step (rooms (s\<lparr>timers := (timers s)(t := None)\<rparr>) c) r'"
      by (intro on_timeout_rooms) simp
    then show ?thesis by simp
  qed
next
  case (Sweep t)
  with assms show ?thesis by (simp add: sweep_rooms)
qed

section \<open>Winner and draw\<close>

lemma excl_init: "excl init"
  by (simp add: excl_def init_def)

lemma moved_excl:
  assumes "moved r r'"
  shows "\<not> (winner r' \<noteq> None \<and> isDraw r')"
proof -
  from assms obtain q t where l: "legal r (Num q)"
    and r': "r' = settle ((place r q (currentPlayer r))\<lparr>lastActivity := t\<rparr>)"
    unfolding moved_def by blast
  from legal_undecided [OF l] show ?thesis
    unfolding r' by (intro settle_undecided(4)) simp_all
qed

lemma excl_step:
  assumes "excl s"
  shows "excl (fst (step s e))"
  unfolding excl_def
proof (intro allI impI)
  fix c r'
  assume "rooms (fst (step s e)) c = Some r'"
  then have "room_step (rooms s c) r'" by (rule step_rooms)
  then consider r where "rooms s c = Some r" "same_game r r'"
    | r where "rooms s c = Some r" "moved r r'"
    | "cleared r'"
    unfolding room_step_def by blast
  then show "\<not> (winner r' \<noteq> None \<and> isDraw r')"
  proof cases
    case 1
    with assms show ?thesis unfolding excl_def same_game_def by metis
  next
    case 2
    then show ?thesis using moved_excl by blast
  next
    case 3
    then show ?thesis by (simp add: cleared_def)
  qed
qed

lemma excl_run: "excl s \<Longrightarrow> excl (run s evs)"
  by (induction evs arbitrary: s) (simp_all add: excl_step)

lemma decided_not_moved:
  assumes "winner r \<noteq> None \<or> isDraw r"
  shows "\<not> moved r r'"
proof
  assume "moved r r'"
  then obtain q where "legal r (Num q)" unfolding moved_def by blast
  from legal_undecided [OF this] assms show False by simp
qed

lemma on_move_decided:
  assumes "rooms s (prop_key (roomCode (conns s ws))) = Some r"
    and "winner r \<noteq> None \<or> isDraw r"
  shows "fst (on_move s ws idx ch) = s \<and>
         set (snd (on_move s ws idx ch)) \<subseteq>
           {(ws, ErrorMsg ''Not your turn''), (ws, ErrorMsg ''Invalid move'')}"
proof -
  have "\<not> (\<exists>r q. rooms s (prop_key (roomCode (conns s ws))) = Some r \<and>
      symbol (conns s ws) = Some (currentPlayer r) \<and> idx = Num q \<and> legal r (Num q))"
    using assms legal_undecided by fastforce
  with on_move_cases [of s ws idx ch]
  have "on_move s ws idx ch = (s, snd (on_move s ws idx ch)) \<and>
     set (snd (on_move s ws idx ch)) \<subseteq>
       {(ws, ErrorMsg ''Not your turn''), (ws, ErrorMsg ''Invalid move'')}"
    by blast
  then show ?thesis by (metis fst_conv)
qed

lemma restart_room:
  "\<exists>r'. rooms (fst (restart sc s k r ch)) k = Some r' \<and> cleared r' \<and> scores r' = sc \<and>
     lastActivity r' = now ch"
  by (simp add: restart_def reshufflePlayers_def Let_def cleared_def)

lemma on_reset_room:
  assumes "rooms s (prop_key (roomCode (conns s ws))) = Some r"
  shows "\<exists>r'. rooms (fst (on_reset s ws ch)) (prop_key (roomCode (conns s ws))) = Some r' \<and>
     cleared r' \<and> scores r' = scores r"
proof -
  from restart_room [of "scores r" s "prop_key (roomCode (conns s ws))" r ch]
  obtain r' where "rooms (fst (restart (scores r) s (prop_key (roomCode (conns s ws))) r ch))
      (prop_key (roomCode (conns s ws))) = Some r'" "cleared r'" "scores r' = scores r"
    by blast
  with assms show ?thesis by (simp add: on_reset_def Let_def)
qed

lemma on_new_room:
  assumes "rooms s (prop_key (roomCode (conns s ws))) = Some r"
  shows "\<exists>r'. rooms (fst (on_new s ws ch)) (prop_key (roomCode (conns s ws))) = Some r' \<and>
     cleared r' \<and> scores r' = zero_scores"
proof -
  from restart_room [of zero_scores s "prop_key (roomCode (conns s ws))" r ch]
  obtain r' where "rooms (fst (restart zero_scores s (prop_key (roomCode (conns s ws))) r ch))
      (prop_key (roomCode (conns s ws))) = Some r'" "cleared r'" "scores r' = zero_scores"
    by blast
  with assms show ?thesis by (simp add: on_new_def Let_def)
qed

text \<open>
  Claim C3. In every room of every store reached from the empty store by any sequence of
  events (connections, the five messages, disconnections, timers, cleanup), \<open>winner\<close> and
  \<open>isDraw\<close> are not both set. Once one of them is set, every move message addressed to the
  room leaves the whole store unchanged and is answered by an error at most; whatever
  event comes next, the room under that code has the same game, or a cleared game; and
  \<open>reset\<close> and \<open>new\<close> clear the game.
\<close>

theorem winner_draw_exclusive:
  assumes "s = run init evs" and "rooms s c = Some r"
  shows "\<not> (winner r \<noteq> None \<and> isDraw r) \<and>
    (winner r \<noteq> None \<or> isDraw r \<longrightarrow>
       (\<forall>ws idx ch. prop_key (roomCode (conns s ws)) = c \<longrightarrow>
          fst (on_move s ws idx ch) = s \<and>
          set (snd (on_move s ws idx ch)) \<subseteq>
            {(ws, ErrorMsg ''Not your turn''), (ws, ErrorMsg ''Invalid move'')}) \<and>
       (\<forall>e r'. rooms (fst (step s e)) c = Some r' \<longrightarrow> same_game r r' \<or> cleared r')) \<and>
    (\<forall>ws ch. prop_key (roomCode (conns s ws)) = c \<longrightarrow>
       (\<exists>r'. rooms (fst (on_reset s ws ch)) c = Some r' \<and> cleared r') \<and>
       (\<exists>r'. rooms (fst (on_new s ws ch)) c = Some r' \<and> cleared r'))"
proof (intro conjI impI allI)
  have "excl s" unfolding assms(1) using excl_init by (rule excl_run)
  with assms(2) show "\<not> (winner r \<noteq> None \<and> isDraw r)" unfolding excl_def by blast
next
  fix ws idx ch
  assume d: "winner r \<noteq> None \<or> isDraw r" and k: "prop_key (roomCode (conns s ws)) = c"
  from assms(2) k have "rooms s (prop_key (roomCode (conns s ws))) = Some r" by simp
  from on_move_decided [OF this d, of idx ch]
  show "fst (on_move s ws idx ch) = s"
    and "set (snd (on_move s ws idx ch)) \<subseteq>
            {(ws, ErrorMsg ''Not your turn''), (ws, ErrorMsg ''Invalid move'')}"
    by simp_all
next
  fix e r'
  assume d: "winner r \<noteq> None \<or> isDraw r" and "rooms (fst (step s e)) c = Some r'"
  then have "room_step (rooms s c) r'" by (intro step_rooms)
  with assms(2) decided_not_moved [OF d] show "same_game r r' \<or> cleared r'"
    by (auto simp: room_step_def)
next
  fix ws ch
  assume k: "prop_key (roomCode (conns s ws)) = c"
  from assms(2) k have r: "rooms s (prop_key (roomCode (conns s ws))) = Some r" by simp
  from on_reset_room [OF r, of ch] k
  show "\<exists>r'. rooms (fst (on_reset s ws ch)) c = Some r' \<and> cleared r'" by auto
  from on_new_room [OF r, of ch] k
  show "\<exists>r'. rooms (fst (on_new s ws ch)) c = Some r' \<and> cleared r'" by auto
qed

lemma ex_win_room:
  "(case rooms (run init ex_win_events) ''ABCD'' of
      None \<Rightarrow> False
    | Some r \<Rightarrow> winner r = Some SymX \<and> \<not> isDraw r \<and> winningLine r = Some [0, 1, 2] \<and>
        scores r = \<lparr>scoreX = 1, scoreO = 0, draws = 0\<rparr> \<and> currentPlayer r = SymX)"
  by code_simp

lemma ex_win_conn: "roomCode (conns (run init ex_win_events) 1) = Some ''ABCD''"
  by code_simp

theorem winner_draw_exclusive_witness:
  "\<exists>r. rooms (run init ex_win_events) ''ABCD'' = Some r \<and> winner r = Some SymX \<and> \<not> isDraw r \<and>
     fst (on_move (run init ex_win_events) 1 (Num 8) ex_chance) = run init ex_win_events"
proof -
  from ex_win_room obtain r where r: "rooms (run init ex_win_events) ''ABCD'' = Some r"
    and w: "winner r = Some SymX" "\<not> isDraw r"
    by (cases "rooms (run init ex_win_events) ''ABCD''") simp_all
  have k: "prop_key (roomCode (conns (run init ex_win_events) 1)) = ''ABCD''"
    using ex_win_conn by (simp add: prop_key_def)
  from winner_draw_exclusive [OF refl r] w k
  have "fst (on_move (run init ex_win_events) 1 (Num 8) ex_chance) = run init ex_win_events"
    by blast
  with r w show ?thesis by blast
qed

section \<open>Joining a room\<close>











section \<open>Reset\<close>

lemma fresh_board_cells: "cells fresh_board = replicate 9 None"
  by (simp add: fresh_board_def)

lemma on_reset_no_room:
  assumes "rooms s (prop_key (roomCode (conns s ws))) = None"
  shows "on_reset s ws ch = (s, [])"
  using assms by (simp add: on_reset_def)

text \<open>
  Claim C7. A \<open>reset\<close> leaves the scores of the room as they were; afterwards the board
  has nine empty cells, \<open>winner\<close> and \<open>winningLine\<close> are cleared, \<open>isDraw\<close> is false and
  \<open>moveCount\<close> is 0. When the room of the connection no longer exists, \<open>reset\<close> changes
  nothing and sends nothing. \<open>POST /api/reset\<close> does the same to the game of the HTTP server.
\<close>

theorem reset_keeps_scores:
  "(\<forall>r. rooms s (prop_key (roomCode (conns s ws))) = Some r \<longrightarrow>
      (\<exists>r'. rooms (fst (on_reset s ws ch)) (prop_key (roomCode (conns s ws))) = Some r' \<and>
         scores r' = scores r \<and> cells (board r') = replicate 9 None \<and>
         board r' = fresh_board \<and> winner r' = None \<and> winningLine r' = None \<and>
         \<not> isDraw r' \<and> moveCount r' = 0)) \<and>
   (rooms s (prop_key (roomCode (conns s ws))) = None \<longrightarrow> on_reset s ws ch = (s, [])) \<and>
   scores (api_reset g) = scores g \<and> cells (board (api_reset g)) = replicate 9 None \<and>
   winner (api_reset g) = None \<and> winningLine (api_reset g) = None \<and>
   \<not> isDraw (api_reset g) \<and> moveCount (api_reset g) = 0"
proof (intro conjI allI impI)
  fix r
  assume "rooms s (prop_key (roomCode (conns s ws))) = Some r"
  from on_reset_room [OF this, of ch]
  show "\<exists>r'. rooms (fst (on_reset s ws ch)) (prop_key (roomCode (conns s ws))) = Some r' \<and>
         scores r' = scores r \<and> cells (board r') = replicate 9 None \<and>
         board r' = fresh_board \<and> winner r' = None \<and> winningLine r' = None \<and>
         \<not> isDraw r' \<and> moveCount r' = 0"
    by (auto simp: cleared_def fresh_board_cells)
next
  assume "rooms s (prop_key (roomCode (conns s ws))) = None"
  then show "on_reset s ws ch = (s, [])" by (rule on_reset_no_room)
qed (simp_all add: api_reset_def createNewGame_def fresh_board_cells)

theorem reset_keeps_scores_witness:
  "\<exists>r'. rooms (fst (on_reset (run init ex_win_events) 1 ex_chance)) ''ABCD'' = Some r' \<and>
     scores r' = \<lparr>scoreX = 1, scoreO = 0, draws = 0\<rparr> \<and>
     cells (board r') = [None, None, None, None, None, None, None, None, None] \<and>
     winner r' = None \<and> moveCount r' = 0"
proof -
  from ex_win_room obtain r where r: "rooms (run init ex_win_events) ''ABCD'' = Some r"
    and sc: "scores r = \<lparr>scoreX = 1, scoreO = 0, draws = 0\<rparr>"
    by (cases "rooms (run init ex_win_events) ''ABCD''") simp_all
  have k: "prop_key (roomCode (conns (run init ex_win_events) 1)) = ''ABCD''"
    using ex_win_conn by (simp add: prop_key_def)
  from reset_keeps_scores [of "run init ex_win_events" 1 ex_chance createNewGame] r k
  obtain r' where "rooms (fst (on_reset (run init ex_win_events) 1 ex_chance)) ''ABCD'' = Some r'"
    and "scores r' = scores r" and "board r' = fresh_board" and "winner r' = None"
    and "moveCount r' = 0"
    by auto
  with sc show ?thesis by (simp add: fresh_cells)
qed

section \<open>Disconnection and the grace timer\<close>

lemma on_close_bound:
  assumes "rooms s (prop_key (roomCode (conns s ws))) = Some r"
    and "symbol (conns s ws) = Some sy"
  shows "on_close s ws =
     (let k = prop_key (roomCode (conns s ws));
          r' = r\<lparr>players := (players r)(sy := None),
                 disconnectTimers := (disconnectTimers r)(sy \<mapsto> nextTimer s)\<rparr>;
          s' = s\<lparr>rooms := (rooms s)(k \<mapsto> r'),
                 timers := (timers s)(nextTimer s \<mapsto>
                    \<lparr>t_ws = ws, t_sym = sy, t_delay = DISCONNECT_GRACE\<rparr>),
                 nextTimer := nextTimer s + 1\<rparr>
      in (s', send s (players r (opp sy)) (OpponentLeft 60)))"
  using assms opp_neq [of sy] by (simp add: on_close_def Let_def send_def)

lemma on_timeout_empty:
  assumes "rooms s (prop_key (roomCode (conns s (t_ws tm)))) = Some r"
    and "players r (t_sym tm) = None"
  shows "on_timeout s tm =
     (s\<lparr>rooms := (rooms s)(prop_key (roomCode (conns s (t_ws tm))) := None)\<rparr>,
      send s (players r (opp (t_sym tm))) (RoomClosed ''Opponent did not reconnect''))"
  using assms by (simp add: on_timeout_def Let_def)

lemma on_timeout_reclaimed:
  assumes "rooms s (prop_key (roomCode (conns s (t_ws tm)))) = Some r"
    and "players r (t_sym tm) \<noteq> None"
  shows "on_timeout s tm = (s, [])"
  using assms by (auto simp: on_timeout_def Let_def)

lemma on_timeout_no_room:
  assumes "rooms s (prop_key (roomCode (conns s (t_ws tm)))) = None"
  shows "on_timeout s tm = (s, [])"
  using assms by (simp add: on_timeout_def Let_def)

lemma send_Some_open: "readyState (conns s d) = 1 \<Longrightarrow> send s (Some d) m = [(d, m)]"
  by (simp add: send_def)

lemma send_None: "send s None m = []"
  by (simp add: send_def)

text \<open>
  Claim C8. When a connection bound to room \<open>R\<close> with symbol \<open>S\<close> disconnects, slot \<open>S\<close> is
  cleared at once, the holder of the other slot, when there is one and it is open, is told
  \<open>opponentLeft\<close> with a grace period of 60 seconds, and a timer of 60000 milliseconds is
  scheduled and registered for slot \<open>S\<close>. When the timer of a connection and symbol \<open>S\<close>
  fires and slot \<open>S\<close> of the connection's room is empty, the room is deleted and the holder
  of the other slot, when there is one and it is open, is told \<open>roomClosed\<close>; when the slot
  is taken again, or the room is gone, the callback changes nothing and sends nothing. A
  timer that was cancelled does not fire.
\<close>

theorem disconnect_grace:
  "(rooms s (prop_key (roomCode (conns s ws))) = Some r \<and> symbol (conns s ws) = Some sy \<longrightarrow>
      (\<exists>r'. rooms (fst (on_close s ws)) (prop_key (roomCode (conns s ws))) = Some r' \<and>
         players r' sy = None \<and> players r' (opp sy) = players r (opp sy) \<and>
         disconnectTimers r' sy = Some (nextTimer s) \<and>
         timers (fst (on_close s ws)) (nextTimer s) =
           Some \<lparr>t_ws = ws, t_sym = sy, t_delay = 60 * 1000\<rparr> \<and>
         same_game r r') \<and>
      (\<forall>d. players r (opp sy) = Some d \<and> readyState (conns s d) = 1 \<longrightarrow>
         snd (on_close s ws) = [(d, OpponentLeft 60)]) \<and>
      (players r (opp sy) = None \<longrightarrow> snd (on_close s ws) = [])) \<and>
   (rooms u (prop_key (roomCode (conns u (t_ws tm)))) = Some v \<longrightarrow>
      (players v (t_sym tm) = None \<longrightarrow>
         rooms (fst (on_timeout u tm)) (prop_key (roomCode (conns u (t_ws tm)))) = None \<and>
         (\<forall>d. players v (opp (t_sym tm)) = Some d \<and> readyState (conns u d) = 1 \<longrightarrow>
            snd (on_timeout u tm) = [(d, RoomClosed ''Opponent did not reconnect'')]) \<and>
         (players v (opp (t_sym tm)) = None \<longrightarrow> snd (on_timeout u tm) = [])) \<and>
      (players v (t_sym tm) \<noteq> None \<longrightarrow> on_timeout u tm = (u, []))) \<and>
   (rooms u (prop_key (roomCode (conns u (t_ws tm)))) = None \<longrightarrow> on_timeout u tm = (u, [])) \<and>
   (timers u t = Some tm \<longrightarrow>
      step u (Timeout t) = on_timeout (u\<lparr>timers := (timers u)(t := None)\<rparr>) tm) \<and>
   (timers u t = None \<longrightarrow> step u (Timeout t) = (u, []))"
proof (intro conjI impI allI)
  assume a: "rooms s (prop_key (roomCode (conns s ws))) = Some r \<and> symbol (conns s ws) = Some sy"
  then have c: "on_close s ws =
     (let k = prop_key (roomCode (conns s ws));
          r' = r\<lparr>players := (players r)(sy := None),
                 disconnectTimers := (disconnectTimers r)(sy \<mapsto> nextTimer s)\<rparr>;
          s' = s\<lparr>rooms := (rooms s)(k \<mapsto> r'),
                 timers := (timers s)(nextTimer s \<mapsto>
                    \<lparr>t_ws = ws, t_sym = sy, t_delay = DISCONNECT_GRACE\<rparr>),
                 nextTimer := nextTimer s + 1\<rparr>
      in (s', send s (players r (opp sy)) (OpponentLeft 60)))"
    by (intro on_close_bound) simp_all
  show "\<exists>r'. rooms (fst (on_close s ws)) (prop_key (roomCode (conns s ws))) = Some r' \<and>
         players r' sy = None \<and> players r' (opp sy) = players r (opp sy) \<and>
         disconnectTimers r' sy = Some (nextTimer s) \<and>
         timers (fst (on_close s ws)) (nextTimer s) =
           Some \<lparr>t_ws = ws, t_sym = sy, t_delay = 60 * 1000\<rparr> \<and>
         same_game r r'"
    unfolding c using opp_neq [of sy]
    by (simp add: Let_def DISCONNECT_GRACE_def same_game_def)
  show "snd (on_close s ws) = [(d, OpponentLeft 60)]"
    if "players r (opp sy) = Some d \<and> readyState (conns s d) = 1" for d
    unfolding c using that by (simp add: Let_def send_Some_open)
  show "snd (on_close s ws) = []" if "players r (opp sy) = None"
    unfolding c using that by (simp add: Let_def send_None)
next
  assume v: "rooms u (prop_key (roomCode (conns u (t_ws tm)))) = Some v"
    and e: "players v (t_sym tm) = None"
  note t = on_timeout_empty [OF v e]
  show "rooms (fst (on_timeout u tm)) (prop_key (roomCode (conns u (t_ws tm)))) = None"
    unfolding t by simp
  show "snd (on_timeout u tm) = [(d, RoomClosed ''Opponent did not reconnect'')]"
    if "players v (opp (t_sym tm)) = Some d \<and> readyState (conns u d) = 1" for d
    unfolding t using that by (simp add: send_Some_open)
  show "snd (on_timeout u tm) = []" if "players v (opp (t_sym tm)) = None"
    unfolding t using that by (simp add: send_None)
next
  assume "rooms u (prop_key (roomCode (conns u (t_ws tm)))) = Some v"
    and "players v (t_sym tm) \<noteq> None"
  then show "on_timeout u tm = (u, [])" by (rule on_timeout_reclaimed)
next
  assume "rooms u (prop_key (roomCode (conns u (t_ws tm)))) = None"
  then show "on_timeout u tm = (u, [])" by (rule on_timeout_no_room)
next
  assume "timers u t = Some tm"
  then show "step u (Timeout t) = on_timeout (u\<lparr>timers := (timers u)(t := None)\<rparr>) tm"
    by simp
next
  assume "timers u t = None"
  then show "step u (Timeout t) = (u, [])" by simp
qed

lemma on_close_conns: "conns (fst (on_close s ws)) = conns s"
  by (simp add: on_close_def Let_def split: option.splits)

lemma ex_server_nextTimer: "nextTimer ex_server = 0"
  by (simp add: ex_server_def ex_events_def ex_chance_def handler_defs normalize_ex)

theorem disconnect_grace_witness:
  "(\<exists>r'. rooms (fst (on_close ex_server 1)) ''ABCD'' = Some r' \<and>
      players r' SymO = None \<and> players r' SymX = Some 0 \<and>
      disconnectTimers r' SymO = Some 0) \<and>
   timers (fst (on_close ex_server 1)) 0 = Some \<lparr>t_ws = 1, t_sym = SymO, t_delay = 60000\<rparr> \<and>
   snd (on_close ex_server 1) = [(0, OpponentLeft 60)] \<and>
   rooms (fst (on_timeout (fst (on_close ex_server 1))
      \<lparr>t_ws = 1, t_sym = SymO, t_delay = 60000\<rparr>)) ''ABCD'' = None \<and>
   snd (on_timeout (fst (on_close ex_server 1)) \<lparr>t_ws = 1, t_sym = SymO, t_delay = 60000\<rparr>) =
     [(0, RoomClosed ''Opponent did not reconnect'')] \<and>
   on_timeout ex_server \<lparr>t_ws = 1, t_sym = SymO, t_delay = 60000\<rparr> = (ex_server, [])"
proof -
  let ?tm = "\<lparr>t_ws = 1, t_sym = SymO, t_delay = 60000\<rparr>"
  let ?u = "fst (on_close ex_server 1)"
  have k: "prop_key (roomCode (conns ex_server 1)) = ''ABCD''"
    by (simp add: ex_conn1 prop_key_def)
  have h: "rooms ex_server (prop_key (roomCode (conns ex_server 1))) = Some ex_room \<and>
      symbol (conns ex_server 1) = Some SymO"
    by (simp add: ex_conn1 ex_rooms prop_key_def)
  have p: "players ex_room SymX = Some 0" "players ex_room SymO = Some 1"
    by (simp_all add: ex_room_def)
  have o: "readyState (conns ex_server 0) = 1" by (simp add: ex_conn0)
  note a = disconnect_grace [where s = ex_server and ws = 1 and r = ex_room and sy = SymO
      and u = ex_server and tm = ?tm and v = ex_room and t = 0]
  from a h obtain r' where r': "rooms ?u (prop_key (roomCode (conns ex_server 1))) = Some r'"
    "players r' SymO = None" "players r' (opp SymO) = players ex_room (opp SymO)"
    "disconnectTimers r' SymO = Some (nextTimer ex_server)"
    "timers ?u (nextTimer ex_server) = Some \<lparr>t_ws = 1, t_sym = SymO, t_delay = 60 * 1000\<rparr>"
    by blast
  from a h p o have out: "snd (on_close ex_server 1) = [(0, OpponentLeft 60)]"
    by (simp add: opp_def)
  from a h p have noop: "on_timeout ex_server ?tm = (ex_server, [])"
    by (simp add: ex_conn1)
  from r' k have ru: "rooms ?u (prop_key (roomCode (conns ?u (t_ws ?tm)))) = Some r'"
    by (simp add: on_close_conns)
  from r' p have px: "players r' (opp (t_sym ?tm)) = Some 0" "players r' (t_sym ?tm) = None"
    by (simp_all add: opp_def)
  have ou: "readyState (conns ?u 0) = 1" by (simp add: on_close_conns ex_conn0)
  note b = disconnect_grace [where s = ex_server and ws = 1 and r = ex_room and sy = SymO
      and u = ?u and tm = ?tm and v = r' and t = 0]
  from b ru px ou
  have gone: "rooms (fst (on_timeout ?u ?tm)) (prop_key (roomCode (conns ?u (t_ws ?tm)))) = None"
    and told: "snd (on_timeout ?u ?tm) = [(0, RoomClosed ''Opponent did not reconnect'')]"
    by blast+
  from r' k p have "\<exists>r'. rooms ?u ''ABCD'' = Some r' \<and>
      players r' SymO = None \<and> players r' SymX = Some 0 \<and> disconnectTimers r' SymO = Some 0"
    by (simp add: opp_def ex_server_nextTimer)
  moreover from r' have "timers ?u 0 = Some ?tm" by (simp add: ex_server_nextTimer)
  moreover from gone k have "rooms (fst (on_timeout ?u ?tm)) ''ABCD'' = None"
    by (simp add: on_close_conns)
  ultimately show ?thesis using out told noop by blast
qed

section \<open>Who starts a round\<close>

lemma fresh_not_truthy: "\<not> truthy_at fresh_board q"
  by (simp add: truthy_at_def fresh_board_def cell_at_def)

lemma cleared_legal:
  assumes "cleared r" and "0 \<le> q" and "q \<le> 8"
  shows "legal r (Num q)"
  using assms by (simp add: legal_def cleared_def fresh_not_truthy)

lemma round_startI:
  assumes r': "rooms s' k = Some r'" and c: "cleared r'"
  shows "round_start s' k"
  unfolding round_start_def
proof (intro exI [of _ r'] conjI allI impI)
  show "rooms s' k = Some r'" by (rule r')
  show "cleared r'" by (rule c)
  show x: "currentPlayer r' = SymX" using c by (simp add: cleared_def)
  show "on_move s' w idx ch = (s', send s' (Some w) (ErrorMsg ''Not your turn''))"
    if "prop_key (roomCode (conns s' w)) = k \<and> symbol (conns s' w) \<noteq> Some SymX" for w idx ch
    using that r' x by (intro on_move_not_your_turn [of s' w r']) simp_all
  show "rooms (fst (on_move s' d (Num q) ch)) k =
          Some (settle ((place r' q SymX)\<lparr>lastActivity := now ch\<rparr>))"
    if h: "players r' SymX = Some d \<and> prop_key (roomCode (conns s' d)) = k \<and>
             symbol (conns s' d) = Some SymX \<and> 0 \<le> q \<and> q \<le> 8" for d q ch
  proof -
    from h r' have a: "rooms s' (prop_key (roomCode (conns s' d))) = Some r'" by simp
    from h x have b: "symbol (conns s' d) = Some (currentPlayer r')" by simp
    from h c have l: "legal r' (Num q)" by (simp add: cleared_legal)
    from on_move_accepted_room [OF a b l, of ch] h x show ?thesis by simp
  qed
qed

lemma restart_players:
  "\<exists>r'. rooms (fst (restart sc s k r ch)) k = Some r' \<and> cleared r' \<and>
     players r' SymX = (if coin ch then players r SymO else players r SymX) \<and>
     players r' SymO = (if coin ch then players r SymX else players r SymO) \<and>
     (\<forall>d. players r' SymO = Some d \<longrightarrow>
        symbol (conns (fst (restart sc s k r ch)) d) = Some SymO) \<and>
     (\<forall>d. players r' SymX = Some d \<and> players r' SymO \<noteq> Some d \<longrightarrow>
        symbol (conns (fst (restart sc s k r ch)) d) = Some SymX)"
  by (auto simp: restart_def reshufflePlayers_def reshuffle_conns_def Let_def cleared_def
      split: option.splits)

lemma restart_round:
  "round_start (fst (restart sc s k r ch)) k \<and> reshuffled r (coin ch) (fst (restart sc s k r ch)) k"
proof -
  from restart_players [of sc s k r ch] obtain r' where
    r': "rooms (fst (restart sc s k r ch)) k = Some r'" and c: "cleared r'"
    and p: "players r' SymX = (if coin ch then players r SymO else players r SymX)"
      "players r' SymO = (if coin ch then players r SymX else players r SymO)"
      "\<forall>d. players r' SymO = Some d \<longrightarrow> symbol (conns (fst (restart sc s k r ch)) d) = Some SymO"
      "\<forall>d. players r' SymX = Some d \<and> players r' SymO \<noteq> Some d \<longrightarrow>
        symbol (conns (fst (restart sc s k r ch)) d) = Some SymX"
    by blast
  from r' c have "round_start (fst (restart sc s k r ch)) k" by (rule round_startI)
  moreover from r' p have "reshuffled r (coin ch) (fst (restart sc s k r ch)) k"
    unfolding reshuffled_def by blast
  ultimately show ?thesis ..
qed

lemma on_create_room:
  "\<exists>r'. rooms (fst (on_create s ws ch)) (newCode ch) = Some r' \<and> cleared r' \<and>
     players r' (if coin ch then SymX else SymO) = Some ws \<and>
     players r' (if coin ch then SymO else SymX) = None \<and>
     roomCode (conns (fst (on_create s ws ch)) ws) = Some (newCode ch) \<and>
     symbol (conns (fst (on_create s ws ch)) ws) = Some (if coin ch then SymX else SymO)"
  by (simp add: on_create_def Let_def createRoom_def cleared_def set_conn_def)

text \<open>
  Claim C10. After a room is created, and after every \<open>reset\<close> and \<open>new\<close>, whatever the
  random outcomes, \<open>currentPlayer\<close> is \<open>X\<close>: a round starts, in which a move by a connection
  of the room whose symbol is not \<open>X\<close> is refused with \<open>Not your turn\<close> and the first move by
  the holder of slot \<open>X\<close> is accepted. The reshuffle leaves the two holders in the two slots,
  swapped or not, and gives each the symbol of its slot.
\<close>

theorem round_starts_with_X:
  "round_start (fst (on_create s ws ch)) (newCode ch) \<and>
   (\<forall>r. rooms s (prop_key (roomCode (conns s ws))) = Some r \<longrightarrow>
      round_start (fst (on_reset s ws ch)) (prop_key (roomCode (conns s ws))) \<and>
      reshuffled r (coin ch) (fst (on_reset s ws ch)) (prop_key (roomCode (conns s ws))) \<and>
      round_start (fst (on_new s ws ch)) (prop_key (roomCode (conns s ws))) \<and>
      reshuffled r (coin ch) (fst (on_new s ws ch)) (prop_key (roomCode (conns s ws))))"
proof (intro conjI allI impI)
  from on_create_room [of s ws ch] obtain r' where
    "rooms (fst (on_create s ws ch)) (newCode ch) = Some r'" "cleared r'" by blast
  then show "round_start (fst (on_create s ws ch)) (newCode ch)" by (rule round_startI)
next
  fix r
  assume r: "rooms s (prop_key (roomCode (conns s ws))) = Some r"
  let ?k = "prop_key (roomCode (conns s ws))"
  have a: "on_reset s ws ch = restart (scores r) s ?k r ch"
    using r by (simp add: on_reset_def Let_def)
  have b: "on_new s ws ch = restart zero_scores s ?k r ch"
    using r by (simp add: on_new_def Let_def)
  show "round_start (fst (on_reset s ws ch)) ?k"
    and "reshuffled r (coin ch) (fst (on_reset s ws ch)) ?k"
    unfolding a using restart_round [of "scores r" s ?k r ch] by simp_all
  show "round_start (fst (on_new s ws ch)) ?k"
    and "reshuffled r (coin ch) (fst (on_new s ws ch)) ?k"
    unfolding b using restart_round [of zero_scores s ?k r ch] by simp_all
qed

lemma ex_win_players:
  "(case rooms (run init ex_win_events) ''ABCD'' of
      None \<Rightarrow> False
    | Some r \<Rightarrow> players r SymX = Some 0 \<and> players r SymO = Some 1)"
  by code_simp

lemma ex_reset_conn0:
  "roomCode (conns (fst (on_reset (run init ex_win_events) 1 ex_chance)) 0) = Some ''ABCD''"
  by code_simp

theorem round_starts_with_X_witness:
  "(\<exists>r'. rooms (fst (on_reset (run init ex_win_events) 1 ex_chance)) ''ABCD'' = Some r' \<and>
      currentPlayer r' = SymX \<and> players r' SymX = Some 1 \<and> players r' SymO = Some 0) \<and>
   symbol (conns (fst (on_reset (run init ex_win_events) 1 ex_chance)) 0) = Some SymO \<and>
   fst (on_move (fst (on_reset (run init ex_win_events) 1 ex_chance)) 0 (Num 4) ex_chance) =
     fst (on_reset (run init ex_win_events) 1 ex_chance)"
proof -
  let ?s = "run init ex_win_events"
  let ?s' = "fst (on_reset ?s 1 ex_chance)"
  from ex_win_players obtain r where r: "rooms ?s ''ABCD'' = Some r"
    and p: "players r SymX = Some 0" "players r SymO = Some 1"
    by (cases "rooms ?s ''ABCD''") simp_all
  have k: "prop_key (roomCode (conns ?s 1)) = ''ABCD''"
    using ex_win_conn by (simp add: prop_key_def)
  from round_starts_with_X [of ?s 1 ex_chance] r k
  have st: "round_start ?s' ''ABCD''" and sh: "reshuffled r (coin ex_chance) ?s' ''ABCD''"
    by auto
  from sh p obtain r' where r': "rooms ?s' ''ABCD'' = Some r'"
    and p': "players r' SymX = Some 1" "players r' SymO = Some 0"
    and o: "\<forall>d. players r' SymO = Some d \<longrightarrow> symbol (conns ?s' d) = Some SymO"
    unfolding reshuffled_def by (auto simp: ex_chance_def)
  from o p' have sy: "symbol (conns ?s' 0) = Some SymO" by blast
  from st r' have x: "currentPlayer r' = SymX"
    unfolding round_start_def by auto
  have k0: "prop_key (roomCode (conns ?s' 0)) = ''ABCD''"
    using ex_reset_conn0 by (simp add: prop_key_def)
  from st k0 sy have "on_move ?s' 0 (Num 4) ex_chance =
      (?s', send ?s' (Some 0) (ErrorMsg ''Not your turn''))"
    unfolding round_start_def by auto
  then have "fst (on_move ?s' 0 (Num 4) ex_chance) = ?s'" by simp
  with r' x p' sy show ?thesis by blast
qed

section \<open>Connections and slots\<close>




lemma holdsI: "rooms s c = Some r \<Longrightarrow> players r sy = Some ws \<Longrightarrow> holds s ws c sy"
  by (simp add: holds_def)





lemma settle_players [simp]: "players (settle r) = players r"
  by (simp add: settle_def split: option.splits)

lemma place_players [simp]: "players (place r q sy) = players r"
  by (simp add: place_def)




















end
